theory Spec2Isabelle
  imports Main "HOL-Library.AList"
begin

section \<open>JavaScript values\<close>

text \<open>
  The gateway moves JSON-RPC messages around. A message is a JSON value; \<open>undefined\<close>
  is modelled by \<open>None\<close>, so a JavaScript value is a \<open>json option\<close>. Numbers are
  restricted to integers and strings to lists of 8-bit characters. An object is an
  association list in key order without repeated keys.
\<close>

datatype json =
    JNull
  | JBool bool
  | JNum int
  | JStr string
  | JArr "json list"
  | JObj "(string \<times> json) list"

type_synonym jsval = "json option"

text \<open>
  Every failure of the source is a thrown \<open>Error\<close> carrying a message, a
  \<open>TypeError\<close> raised by the runtime when a property of \<open>undefined\<close> or \<open>null\<close> is
  read or a non-function is called, a \<open>SyntaxError\<close> raised by \<open>JSON.parse\<close>, or the
  \<open>AbortError\<close> of an aborted \<open>fetch\<close>.
\<close>

datatype error = Error string | TypeError string | SyntaxError string | AbortError string

text \<open>Truthiness, as used by \<open>!x\<close>, \<open>x || y\<close>, \<open>x && y\<close> and \<open>x ? a : b\<close>.\<close>

fun truthy :: "jsval \<Rightarrow> bool" where
  "truthy None = False"
| "truthy (Some JNull) = False"
| "truthy (Some (JBool b)) = b"
| "truthy (Some (JNum n)) = (n \<noteq> 0)"
| "truthy (Some (JStr s)) = (s \<noteq> [])"
| "truthy (Some (JArr xs)) = True"
| "truthy (Some (JObj fs)) = True"

text \<open>
  Property access \<open>v.k\<close> for the keys the source reads (\<open>id\<close>, \<open>result\<close>, \<open>tools\<close>,
  \<open>name\<close>, \<open>description\<close>): it throws on \<open>undefined\<close> and \<open>null\<close>, reads the field
  of an object, and is \<open>undefined\<close> on every other value.
\<close>

fun get_prop :: "string \<Rightarrow> jsval \<Rightarrow> error + jsval" where
  "get_prop k None =
     Inl (TypeError (''Cannot read properties of undefined (reading '' @ [CHR 0x27] @ k @ [CHR 0x27] @ '')''))"
| "get_prop k (Some JNull) =
     Inl (TypeError (''Cannot read properties of null (reading '' @ [CHR 0x27] @ k @ [CHR 0x27] @ '')''))"
| "get_prop k (Some (JObj fs)) = Inr (map_of fs k)"
| "get_prop k (Some v) = Inr None"

text \<open>Decimal rendering of a natural number, as a template literal prints it.\<close>

fun show_nat :: "nat \<Rightarrow> string" where
  "show_nat n =
     (if n < 10 then [char_of (48 + n)]
      else show_nat (n div 10) @ [char_of (48 + n mod 10)])"

declare show_nat.simps [simp del]

text \<open>
  \<open>s.split(sep)\<close> for a one-character separator: every occurrence of the separator
  ends a piece, and the empty string gives one empty piece.
\<close>

fun split_js :: "char \<Rightarrow> string \<Rightarrow> string list" where
  "split_js sep [] = [[]]"
| "split_js sep (c # cs) =
     (if c = sep then [] # split_js sep cs
      else (case split_js sep cs of
              [] \<Rightarrow> [[c]]
            | p # ps \<Rightarrow> (c # p) # ps))"

section \<open>Session registry and router (server.js)\<close>

datatype server_type = STDIO | SSE | STREAMABLE_HTTP

text \<open>
  An entry of \<open>mcpServers\<close>: its \<open>type\<close> and the \<open>request\<close> function of its
  \<open>server\<close> object, which answers a request with a response or throws.
\<close>

record session =
  stype :: server_type
  request :: "json \<Rightarrow> error + jsval"

text \<open>
  \<open>mcpServers\<close> is a \<open>Map\<close>: iteration follows insertion order, so the registry is
  an association list; \<open>get\<close> is \<open>map_of\<close>, \<open>set\<close> is \<open>AList.update\<close> and \<open>delete\<close>
  is \<open>AList.delete\<close>.
\<close>

type_synonym registry = "(string \<times> session) list"

text \<open>The handler of the subprocess \<open>exit\<close> event in \<open>startStdioServer\<close>.\<close>

definition on_exit :: "string \<Rightarrow> registry \<Rightarrow> registry" where
  "on_exit name mcpServers = AList.delete name mcpServers"

text \<open>The two messages thrown by the \<open>tools/call\<close> handler before any backend is called.\<close>

definition MalformedToolName :: "string \<Rightarrow> error" where
  "MalformedToolName toolName =
     Error (''Invalid tool name format: '' @ toolName @ ''. Expected format: serverName:toolName'')"

definition UnknownBackend :: "string \<Rightarrow> error" where
  "UnknownBackend serverName = Error (''MCP server not found: '' @ serverName)"

text \<open>
  The request object built for the chosen backend. \<open>now\<close> is the value of
  \<open>Date.now()\<close>; an \<open>undefined\<close> argument object leaves no \<open>arguments\<close> key in the
  serialised request.
\<close>

definition call_request :: "server_type \<Rightarrow> nat \<Rightarrow> string \<Rightarrow> jsval \<Rightarrow> json" where
  "call_request ty now actualToolName toolArgs =
     (let params = JObj ((''name'', JStr actualToolName) #
                         (case toolArgs of None \<Rightarrow> [] | Some a \<Rightarrow> [(''arguments'', a)]))
      in if ty = STDIO
         then JObj [(''method'', JStr ''tools/call''), (''params'', params)]
         else JObj [(''jsonrpc'', JStr ''2.0''), (''method'', JStr ''tools/call''),
                    (''id'', JStr (''call-'' @ show_nat now)), (''params'', params)])"

text \<open>\<open>response.result ? response : { content: response }\<close>\<close>

fun normalize_response :: "jsval \<Rightarrow> error + json" where
  "normalize_response None =
     Inl (TypeError (''Cannot read properties of undefined (reading '' @ [CHR 0x27] @ ''result''
                       @ [CHR 0x27] @ '')''))"
| "normalize_response (Some v) =
     (case get_prop ''result'' (Some v) of
        Inl e \<Rightarrow> Inl e
      | Inr r \<Rightarrow> Inr (if truthy r then v else JObj [(''content'', v)]))"

text \<open>
  The \<open>CallToolRequestSchema\<close> handler. Its result is paired with the list of
  backend calls it performed: the name under which the session was found and the
  request passed to that session's \<open>request\<close>. An error caught by the handler is
  logged and thrown again unchanged.
\<close>

definition call_tool_handler ::
  "registry \<Rightarrow> nat \<Rightarrow> string \<Rightarrow> jsval \<Rightarrow> (string \<times> json) list \<times> (error + json)" where
  "call_tool_handler mcpServers now toolName toolArgs =
     (case take 2 (split_js CHR '':'' toolName) of
        [] \<Rightarrow> ([], Inl (MalformedToolName toolName))
      | [serverName] \<Rightarrow> ([], Inl (MalformedToolName toolName))
      | serverName # actualToolName # rest \<Rightarrow>
          if serverName = [] \<or> actualToolName = []
          then ([], Inl (MalformedToolName toolName))
          else (case map_of mcpServers serverName of
                  None \<Rightarrow> ([], Inl (UnknownBackend serverName))
                | Some mcpServer \<Rightarrow>
                    let req = call_request (stype mcpServer) now actualToolName toolArgs
                    in ([(serverName, req)],
                        case request mcpServer req of
                          Inl e \<Rightarrow> Inl e
                        | Inr response \<Rightarrow> normalize_response response)))"


section \<open>The \<open>tools/list\<close> handler\<close>



















section \<open>A JSON reader for closed examples\<close>

text \<open>
  The transport calls the runtime's \<open>JSON.parse\<close>. Its model below takes the parser
  as a parameter, a function from a text to the parsed value or \<open>None\<close> where
  \<open>JSON.parse\<close> throws, and the general theorems hold for every such function. The
  reader defined here instantiates the parameter in closed examples. It reads objects,
  arrays, strings with the simple escapes, integers and the three literals, and rejects
  every other text (also numbers with a fraction or an exponent and \<open>\u\<close> escapes,
  which \<open>JSON.parse\<close> accepts).
\<close>

definition is_json_ws :: "char \<Rightarrow> bool" where
  "is_json_ws c = (c = CHR '' '' \<or> c = CHR 0x09 \<or> c = CHR 0x0A \<or> c = CHR 0x0D)"

definition skip_ws :: "string \<Rightarrow> string" where
  "skip_ws s = dropWhile is_json_ws s"

definition is_digit :: "char \<Rightarrow> bool" where
  "is_digit c = (48 \<le> (of_char c :: nat) \<and> (of_char c :: nat) \<le> 57)"

definition digits_value :: "string \<Rightarrow> nat" where
  "digits_value ds = foldl (\<lambda>acc d. 10 * acc + (of_char d - 48)) 0 ds"

definition unescape :: "char \<Rightarrow> char option" where
  "unescape c =
     (if c = CHR 0x22 \<or> c = CHR 0x5C \<or> c = CHR ''/'' then Some c
      else if c = CHR ''n'' then Some (CHR 0x0A)
      else if c = CHR ''t'' then Some (CHR 0x09)
      else if c = CHR ''r'' then Some (CHR 0x0D)
      else if c = CHR ''b'' then Some (CHR 0x08)
      else if c = CHR ''f'' then Some (CHR 0x0C)
      else None)"

text \<open>The characters of a string literal after its opening quote, and the rest.\<close>

fun read_string :: "string \<Rightarrow> string \<Rightarrow> (string \<times> string) option" where
  "read_string acc [] = None"
| "read_string acc [c] = (if c = CHR 0x22 then Some (rev acc, []) else None)"
| "read_string acc (c # d # cs) =
     (if c = CHR 0x22 then Some (rev acc, d # cs)
      else if c = CHR 0x5C then
        (case unescape d of None \<Rightarrow> None | Some e \<Rightarrow> read_string (e # acc) cs)
      else if (of_char c :: nat) < 32 then None
      else read_string (c # acc) (d # cs))"

definition read_number :: "string \<Rightarrow> (json \<times> string) option" where
  "read_number s =
     (let neg = (take 1 s = ''-'');
          t = (if neg then drop 1 s else s);
          ds = takeWhile is_digit t;
          r = dropWhile is_digit t
      in if ds = [] \<or> (length ds > 1 \<and> hd ds = CHR ''0'') then None
         else if take 1 r = ''.'' \<or> take 1 r = ''e'' \<or> take 1 r = ''E'' then None
         else Some (JNum (if neg then - int (digits_value ds) else int (digits_value ds)), r))"

text \<open>A value that is neither an array nor an object, at the start of the text.\<close>

definition read_atom :: "string \<Rightarrow> (json \<times> string) option" where
  "read_atom t =
     (if take 4 t = ''null'' then Some (JNull, drop 4 t)
      else if take 4 t = ''true'' then Some (JBool True, drop 4 t)
      else if take 5 t = ''false'' then Some (JBool False, drop 5 t)
      else if take 1 t = [CHR 0x22] then
        (case read_string [] (drop 1 t) of
           None \<Rightarrow> None
         | Some (str, r) \<Rightarrow> Some (JStr str, r))
      else read_number t)"

text \<open>The key of an object member and the colon after it.\<close>

definition read_key :: "string \<Rightarrow> (string \<times> string) option" where
  "read_key s =
     (if take 1 (skip_ws s) \<noteq> [CHR 0x22] then None
      else (case read_string [] (drop 1 (skip_ws s)) of
              None \<Rightarrow> None
            | Some (k, r) \<Rightarrow>
                if take 1 (skip_ws r) = '':'' then Some (k, drop 1 (skip_ws r)) else None))"

text \<open>
  Values, the elements of an array after \<open>[\<close> and the members of an object after
  \<open>{\<close>. The first argument bounds the number of nested calls. A repeated key keeps
  its first place and takes the last value.
\<close>

datatype reading = Value | Elements "json list" | Members "(string \<times> json) list"

fun read_json :: "nat \<Rightarrow> reading \<Rightarrow> string \<Rightarrow> (json \<times> string) option" where
  "read_json 0 what s = None"
| "read_json (Suc n) Value s =
     (if take 1 (skip_ws s) = ''['' then
        (if take 1 (skip_ws (drop 1 (skip_ws s))) = '']''
         then Some (JArr [], drop 1 (skip_ws (drop 1 (skip_ws s))))
         else read_json n (Elements []) (drop 1 (skip_ws s)))
      else if take 1 (skip_ws s) = ''{'' then
        (if take 1 (skip_ws (drop 1 (skip_ws s))) = ''}''
         then Some (JObj [], drop 1 (skip_ws (drop 1 (skip_ws s))))
         else read_json n (Members []) (drop 1 (skip_ws s)))
      else read_atom (skip_ws s))"
| "read_json (Suc n) (Elements acc) s =
     (case read_json n Value s of
        None \<Rightarrow> None
      | Some vr \<Rightarrow>
          if take 1 (skip_ws (snd vr)) = '',''
          then read_json n (Elements (acc @ [fst vr])) (drop 1 (skip_ws (snd vr)))
          else if take 1 (skip_ws (snd vr)) = '']''
          then Some (JArr (acc @ [fst vr]), drop 1 (skip_ws (snd vr)))
          else None)"
| "read_json (Suc n) (Members acc) s =
     (case read_key s of
        None \<Rightarrow> None
      | Some kr \<Rightarrow>
          (case read_json n Value (snd kr) of
             None \<Rightarrow> None
           | Some vr \<Rightarrow>
               if take 1 (skip_ws (snd vr)) = '',''
               then read_json n (Members (AList.update (fst kr) (fst vr) acc))
                      (drop 1 (skip_ws (snd vr)))
               else if take 1 (skip_ws (snd vr)) = ''}''
               then Some (JObj (AList.update (fst kr) (fst vr) acc), drop 1 (skip_ws (snd vr)))
               else None))"

definition json_parse :: "string \<Rightarrow> json option" where
  "json_parse s =
     (case read_json (2 * length s + 2) Value s of
        None \<Rightarrow> None
      | Some vr \<Rightarrow> if skip_ws (snd vr) = [] then Some (fst vr) else None)"

section \<open>The HTTP transport (http-transport.js): one request, one response\<close>

text \<open>
  A request id is a string or a number, as in JSON-RPC. \<open>as_id\<close> reads a value as an
  id; a value of any other kind equals no request id under \<open>===\<close> and is no key of
  \<open>pendingRequests\<close>.
\<close>

datatype jid = IdStr string | IdNum int

fun as_id :: "jsval \<Rightarrow> jid option" where
  "as_id (Some (JStr s)) = Some (IdStr s)"
| "as_id (Some (JNum n)) = Some (IdNum n)"
| "as_id v = None"

fun id_json :: "jid \<Rightarrow> json" where
  "id_json (IdStr s) = JStr s"
| "id_json (IdNum n) = JNum n"

text \<open>\<open>s.trim()\<close>, on the white space of ASCII.\<close>

definition is_space :: "char \<Rightarrow> bool" where
  "is_space c = (c = CHR '' '' \<or> c = CHR 0x09 \<or> c = CHR 0x0A \<or> c = CHR 0x0B
                 \<or> c = CHR 0x0C \<or> c = CHR 0x0D)"

definition trim :: "string \<Rightarrow> string" where
  "trim s = rev (dropWhile is_space (rev (dropWhile is_space s)))"

text \<open>\<open>s.includes(sub)\<close>\<close>

fun includes_js :: "string \<Rightarrow> string \<Rightarrow> bool" where
  "includes_js [] sub = (sub = [])"
| "includes_js (c # cs) sub = (take (length sub) (c # cs) = sub \<or> includes_js cs sub)"

text \<open>
  What \<open>fetch\<close> resolves with: the status line, the \<open>content-type\<close> header
  (\<open>None\<close> when the header is absent), and the body as the texts of the chunks its
  reader delivers. The body of a response that breaks off ends with an error after
  those chunks.
\<close>

record response =
  ok :: bool
  status :: nat
  statusText :: string
  contentType :: "string option"
  chunks :: "string list"
  broken :: "error option"

text \<open>
  One line of a streamed body: the parsed value if the line is not blank, parses, and
  carries the id of the request. A line that does not parse, or whose value has no
  readable \<open>id\<close>, is logged and passed over.
\<close>

definition matching_fragment :: "(string \<Rightarrow> json option) \<Rightarrow> jid \<Rightarrow> string \<Rightarrow> json option" where
  "matching_fragment parse mid line =
     (if trim line \<noteq> [] then
        (case parse line of
           None \<Rightarrow> None
         | Some data \<Rightarrow>
             (case get_prop ''id'' (Some data) of
                Inl e \<Rightarrow> None
              | Inr i \<Rightarrow> if as_id i = Some mid then Some data else None))
      else None)"

text \<open>The \<open>for\<close> loop over the complete lines of the buffer.\<close>

fun scan_lines :: "(string \<Rightarrow> json option) \<Rightarrow> jid \<Rightarrow> string list \<Rightarrow> json option" where
  "scan_lines parse mid [] = None"
| "scan_lines parse mid (line # lines) =
     (case matching_fragment parse mid line of
        Some data \<Rightarrow> Some data
      | None \<Rightarrow> scan_lines parse mid lines)"

text \<open>
  The \<open>while\<close> loop over the chunks: \<open>Inl data\<close> when a line made the function
  return, \<open>Inr buffer\<close> when the reader reported the end. The last piece of the
  split is kept as the new buffer.
\<close>

fun read_stream ::
  "(string \<Rightarrow> json option) \<Rightarrow> jid \<Rightarrow> string \<Rightarrow> string list \<Rightarrow> json + string" where
  "read_stream parse mid buffer [] = Inr buffer"
| "read_stream parse mid buffer (v # rest) =
     (let lines = split_js CHR 0x0A (buffer @ v)
      in case scan_lines parse mid (butlast lines) of
           Some data \<Rightarrow> Inl data
         | None \<Rightarrow> read_stream parse mid (last lines) rest)"

text \<open>\<open>contentType && contentType.includes(kind)\<close>\<close>

definition declares :: "response \<Rightarrow> string \<Rightarrow> bool" where
  "declares resp kind =
     (case contentType resp of None \<Rightarrow> False | Some ct \<Rightarrow> ct \<noteq> [] \<and> includes_js ct kind)"

text \<open>
  \<open>sendHTTP\<close>, given the id of the message, the outcome of \<open>fetch\<close> and the
  parser. The result \<open>Inr None\<close> is a promise resolved with \<open>undefined\<close>. A body
  that breaks off makes the pending read throw, unless a line had already made the
  function return.
\<close>

definition sendHTTP ::
  "(string \<Rightarrow> json option) \<Rightarrow> jid \<Rightarrow> error + response \<Rightarrow> error + jsval" where
  "sendHTTP parse mid fetched =
     (case fetched of
        Inl e \<Rightarrow> Inl e
      | Inr resp \<Rightarrow>
          if \<not> ok resp
          then Inl (Error (''HTTP '' @ show_nat (status resp) @ '': '' @ statusText resp))
          else if declares resp ''application/json''
          then (case broken resp of
                  Some e \<Rightarrow> Inl e
                | None \<Rightarrow>
                    (case parse (concat (chunks resp)) of
                       None \<Rightarrow> Inl (SyntaxError ''Unexpected token in JSON'')
                     | Some v \<Rightarrow> Inr (Some v)))
          else if declares resp ''text/''
          then (case broken resp of
                  Some e \<Rightarrow> Inl e
                | None \<Rightarrow>
                    (case parse (concat (chunks resp)) of
                       None \<Rightarrow> Inr (Some (JObj [(''result'', JStr (concat (chunks resp)))]))
                     | Some v \<Rightarrow> Inr (Some v)))
          else (case read_stream parse mid [] (chunks resp) of
                  Inl data \<Rightarrow> Inr (Some data)
                | Inr buffer \<Rightarrow>
                    (case broken resp of
                       Some e \<Rightarrow> Inl e
                     | None \<Rightarrow>
                         if trim buffer \<noteq> [] then
                           (case parse buffer of
                              None \<Rightarrow> Inr (Some (JObj [(''result'', JStr buffer)]))
                            | Some v \<Rightarrow> Inr (Some v))
                         else Inr None)))"

text \<open>The fragment stream of the scenario, and a response that delivers it in chunks.\<close>

definition fragment_stream :: string where
  \<open>fragment_stream = ''{"id":"x","partial":true}\<newline>{"id":"x","result":42}\<newline>''\<close>

definition streamed :: "string list \<Rightarrow> response" where
  "streamed cs = \<lparr>ok = True, status = 200, statusText = ''OK'', contentType = None,
                   chunks = cs, broken = None\<rparr>"

section \<open>The HTTP transport: connection, pending requests and the event stream\<close>

text \<open>The fields of the configuration the transport reads.\<close>

record config =
  config_name :: string
  config_type :: server_type
  config_url :: string

text \<open>
  The events the transport emits, and the two ways a promise returned by \<open>sendSSE\<close>
  is settled.
\<close>

datatype event = Connect | Disconnect | Message json

datatype settlement = Resolved json | Rejected error

text \<open>
  The state of an \<open>HttpTransport\<close>. The promises created by \<open>sendSSE\<close> are numbered
  in order of creation. An entry of \<open>pendingRequests\<close> holds the \<open>resolve\<close> and
  \<open>reject\<close> of one promise and its timer, so it is modelled by the number of that
  promise; \<open>timers\<close> lists the running timers, each with the promise it rejects and
  the message id it deletes. \<open>settled\<close> records every call of a \<open>resolve\<close> or
  \<open>reject\<close>, \<open>emitted\<close> every event, in order.
\<close>

record transport =
  connected :: bool
  eventSource :: bool
  requestId :: nat
  pendingRequests :: "(jid \<times> nat) list"
  timers :: "(nat \<times> jid) list"
  promises :: nat
  settled :: "(nat \<times> settlement) list"
  emitted :: "event list"

definition new_transport :: transport where
  "new_transport = \<lparr>connected = False, eventSource = False, requestId = 0,
                      pendingRequests = [], timers = [], promises = 0,
                      settled = [], emitted = []\<rparr>"

text \<open>
  \<open>connectHTTP\<close>, given the outcome of the probing \<open>fetch\<close>; the abort of the
  five-second timer makes \<open>fetch\<close> fail with \<open>AbortError\<close>.
\<close>

definition connectHTTP :: "config \<Rightarrow> error + response \<Rightarrow> error + unit" where
  "connectHTTP cfg probe =
     (case probe of
        Inl e \<Rightarrow>
          (case e of
             AbortError m \<Rightarrow> Inl (Error (''Connection timeout to '' @ config_name cfg))
           | _ \<Rightarrow> Inl e)
      | Inr resp \<Rightarrow>
          if \<not> ok resp
          then Inl (Error (''HTTP '' @ show_nat (status resp) @ '': '' @ statusText resp))
          else Inr ())"

text \<open>
  \<open>connectSSE\<close>, given the outcome of loading the \<open>eventsource\<close> module: it
  creates the event source, whose \<open>onmessage\<close> handler is \<open>onmessage\<close> below.
\<close>

definition connectSSE :: "error option \<Rightarrow> transport \<Rightarrow> error + transport" where
  "connectSSE imported t =
     (case imported of
        Some e \<Rightarrow> Inl e
      | None \<Rightarrow> Inr (t\<lparr>eventSource := True\<rparr>))"

text \<open>\<open>connect\<close>: the \<open>catch\<close> branch marks the transport connected as well.\<close>

definition connect :: "config \<Rightarrow> error option \<Rightarrow> error + response \<Rightarrow> transport \<Rightarrow> transport" where
  "connect cfg imported probe t =
     (if connected t then t
      else
        (case (if config_type cfg = SSE then connectSSE imported t
               else if config_type cfg = STREAMABLE_HTTP then
                 (case connectHTTP cfg probe of Inl e \<Rightarrow> Inl e | Inr u \<Rightarrow> Inr t)
               else Inr t) of
           Inr t' \<Rightarrow> t'\<lparr>connected := True, emitted := emitted t' @ [Connect]\<rparr>
         | Inl e \<Rightarrow> t\<lparr>connected := True, emitted := emitted t @ [Connect]\<rparr>))"

text \<open>
  \<open>sendSSE\<close> from the point where its \<open>await fetch(...)\<close> has settled. Up to that
  point the function has computed the URL and issued the POST, and has not touched the
  state; while it waits, the handlers of the event source and of the timers run. It
  returns the number of the promise it hands to its caller.
\<close>

definition sendSSE :: "jid \<Rightarrow> error + response \<Rightarrow> transport \<Rightarrow> (error + nat) \<times> transport" where
  "sendSSE mid posted t =
     (case posted of
        Inl e \<Rightarrow> (Inl e, t)
      | Inr resp \<Rightarrow>
          if \<not> ok resp
          then (Inl (Error (''SSE POST failed: '' @ show_nat (status resp) @ '' '' @ statusText resp)), t)
          else (Inr (promises t),
                t\<lparr>promises := Suc (promises t),
                  timers := timers t @ [(promises t, mid)],
                  pendingRequests := AList.update mid (promises t) (pendingRequests t)\<rparr>))"

text \<open>
  The callback of the thirty-second timer of promise \<open>p\<close>; a timer that was cleared
  does not fire.
\<close>

definition timeout_fires :: "nat \<Rightarrow> transport \<Rightarrow> transport" where
  "timeout_fires p t =
     (case map_of (timers t) p of
        None \<Rightarrow> t
      | Some mid \<Rightarrow>
          t\<lparr>timers := filter (\<lambda>e. fst e \<noteq> p) (timers t),
            pendingRequests := AList.delete mid (pendingRequests t),
            settled := settled t @ [(p, Rejected (Error ''SSE request timeout''))]\<rparr>)"

text \<open>\<open>data.id && this.pendingRequests.has(data.id)\<close>, with the entry found.\<close>

definition pending_entry :: "jsval \<Rightarrow> transport \<Rightarrow> (jid \<times> nat) option" where
  "pending_entry i t =
     (if truthy i then
        (case as_id i of
           None \<Rightarrow> None
         | Some k \<Rightarrow> (case map_of (pendingRequests t) k of None \<Rightarrow> None | Some p \<Rightarrow> Some (k, p)))
      else None)"

text \<open>\<open>handleMessage\<close>; reading \<open>data.id\<close> throws when \<open>data\<close> is \<open>null\<close>.\<close>

definition handleMessage :: "json \<Rightarrow> transport \<Rightarrow> error + transport" where
  "handleMessage data t =
     (case get_prop ''id'' (Some data) of
        Inl e \<Rightarrow> Inl e
      | Inr i \<Rightarrow>
          (case pending_entry i t of
             Some (k, p) \<Rightarrow>
               Inr (t\<lparr>timers := filter (\<lambda>e. fst e \<noteq> p) (timers t),
                      pendingRequests := AList.delete k (pendingRequests t),
                      settled := settled t @ [(p, Resolved data)]\<rparr>)
           | None \<Rightarrow> Inr (t\<lparr>emitted := emitted t @ [Message data]\<rparr>)))"

text \<open>
  The \<open>onmessage\<close> handler of the event source: a text that does not parse and an
  error thrown by \<open>handleMessage\<close> are logged, and the transport goes on.
\<close>

definition onmessage :: "(string \<Rightarrow> json option) \<Rightarrow> string \<Rightarrow> transport \<Rightarrow> transport" where
  "onmessage parse text t =
     (case parse text of
        None \<Rightarrow> t
      | Some data \<Rightarrow> (case handleMessage data t of Inl e \<Rightarrow> t | Inr t' \<Rightarrow> t'))"

text \<open>\<open>disconnect\<close>\<close>

definition disconnect :: "transport \<Rightarrow> transport" where
  "disconnect t =
     (if \<not> connected t then t
      else t\<lparr>eventSource := False,
             timers := filter (\<lambda>e. fst e \<notin> snd ` set (pendingRequests t)) (timers t),
             settled := settled t @
               map (\<lambda>e. (snd e, Rejected (Error ''Transport disconnected''))) (pendingRequests t),
             pendingRequests := [],
             connected := False,
             emitted := emitted t @ [Disconnect]\<rparr>)"

text \<open>
  \<open>send\<close> up to the call of \<open>sendSSE\<close> or \<open>sendHTTP\<close>: the connection check and
  \<open>message.id || `req-${++this.requestId}`\<close>, where \<open>None\<close> is a message without id.
\<close>

fun truthy_id :: "jid \<Rightarrow> bool" where
  "truthy_id (IdStr s) = (s \<noteq> [])"
| "truthy_id (IdNum n) = (n \<noteq> 0)"

definition assign_id :: "jid option \<Rightarrow> transport \<Rightarrow> jid \<times> transport" where
  "assign_id mid t =
     (case mid of
        Some i \<Rightarrow>
          if truthy_id i then (i, t)
          else (IdStr (''req-'' @ show_nat (Suc (requestId t))), t\<lparr>requestId := Suc (requestId t)\<rparr>)
      | None \<Rightarrow> (IdStr (''req-'' @ show_nat (Suc (requestId t))), t\<lparr>requestId := Suc (requestId t)\<rparr>))"

text \<open>
  What \<open>send\<close> hands back: a value, or the promise of \<open>sendSSE\<close> that the event
  stream or the timer settles later.
\<close>

datatype sent = Value jsval | Awaiting nat

text \<open>
  \<open>send\<close>, given the outcome of the \<open>fetch\<close> that the chosen function performs. An
  error is logged and thrown again.
\<close>

definition send ::
  "(string \<Rightarrow> json option) \<Rightarrow> config \<Rightarrow> jid option \<Rightarrow> error + response \<Rightarrow> transport
     \<Rightarrow> (error + sent) \<times> transport" where
  "send parse cfg mid fetched t =
     (if \<not> connected t
      then (Inl (Error (''Transport not connected for '' @ config_name cfg)), t)
      else
        (case assign_id mid t of
           (i, t') \<Rightarrow>
             if config_type cfg = SSE then
               (case sendSSE i fetched t' of
                  (Inl e, t'') \<Rightarrow> (Inl e, t'')
                | (Inr p, t'') \<Rightarrow> (Inr (Awaiting p), t''))
             else if config_type cfg = STREAMABLE_HTTP then
               (case sendHTTP parse i fetched of
                  Inl e \<Rightarrow> (Inl e, t')
                | Inr v \<Rightarrow> (Inr (Value v), t'))
             else (Inr (Value None), t')))"

text \<open>
  The promises in use are among those created: every promise named by an entry, a timer
  or a settlement has a number below \<open>promises\<close>.
\<close>

definition promises_known :: "transport \<Rightarrow> bool" where
  "promises_known t =
     ((\<forall>e \<in> set (pendingRequests t). snd e < promises t)
      \<and> (\<forall>e \<in> set (timers t). fst e < promises t)
      \<and> (\<forall>e \<in> set (settled t). fst e < promises t))"

text \<open>The states a transport can be in: the steps are the functions above.\<close>

inductive reachable :: "transport \<Rightarrow> bool" where
  created: "reachable new_transport"
| connected: "reachable t \<Longrightarrow> reachable (connect cfg imported probe t)"
| sent: "reachable t \<Longrightarrow> reachable (snd (send parse cfg mid fetched t))"
| heard: "reachable t \<Longrightarrow> reachable (onmessage parse text t)"
| timed_out: "reachable t \<Longrightarrow> reachable (timeout_fires p t)"
| disconnected: "reachable t \<Longrightarrow> reachable (disconnect t)"

text \<open>
  What can happen to a transport while a request waits for its reply: a text arrives
  on the event stream, the POST of a call of \<open>sendSSE\<close> completes, or a timer fires.
\<close>

datatype step = Hear string | Post jid "error + response" | Fire nat

fun perform :: "(string \<Rightarrow> json option) \<Rightarrow> step \<Rightarrow> transport \<Rightarrow> transport" where
  "perform parse (Hear line) t = onmessage parse line t"
| "perform parse (Post mid posted) t = snd (sendSSE mid posted t)"
| "perform parse (Fire q) t = timeout_fires q t"

fun run :: "(string \<Rightarrow> json option) \<Rightarrow> step list \<Rightarrow> transport \<Rightarrow> transport" where
  "run parse [] t = t"
| "run parse (s # ss) t = run parse ss (perform parse s t)"

text \<open>
  A step that leaves the request with id \<open>x\<close> and promise \<open>p\<close> without reply before
  its deadline: a text that does not parse to a message with id \<open>x\<close>, any other send
  (also one that uses the id \<open>x\<close> again), or the timer of another promise.
\<close>

fun quiet :: "(string \<Rightarrow> json option) \<Rightarrow> jid \<Rightarrow> nat \<Rightarrow> step \<Rightarrow> bool" where
  "quiet parse x p (Hear line) =
     (case parse line of
        None \<Rightarrow> True
      | Some data \<Rightarrow> get_prop ''id'' (Some data) \<noteq> Inr (Some (id_json x)))"
| "quiet parse x p (Post mid posted) = True"
| "quiet parse x p (Fire q) = (q \<noteq> p)"

text \<open>
  The timer of promise \<open>p\<close>, set for the request with id \<open>x\<close>, is running: the
  promise exists and is unsettled, and an entry that holds it is the entry of \<open>x\<close>.
\<close>

definition armed :: "jid \<Rightarrow> nat \<Rightarrow> transport \<Rightarrow> bool" where
  "armed x p t =
     (map_of (timers t) p = Some x
      \<and> p < promises t
      \<and> (\<forall>e \<in> set (settled t). fst e \<noteq> p)
      \<and> (\<forall>e \<in> set (pendingRequests t). snd e = p \<longrightarrow> fst e = x))"

section \<open>Facts about \<open>split_js\<close>\<close>

lemma split_js_not_Nil: "split_js sep s \<noteq> []"
  by (induction s) (auto split: list.splits)

lemma split_js_no_sep: "sep \<notin> set s \<Longrightarrow> split_js sep s = [s]"
  by (induction s) auto

lemma split_js_at_sep:
  "sep \<notin> set b \<Longrightarrow> split_js sep (b @ sep # t) = b # split_js sep t"
  by (induction b) auto

lemma split_js_first:
  "\<exists>ps. split_js sep t = takeWhile (\<lambda>c. c \<noteq> sep) t # ps"
  by (induction t) (auto split: list.splits)

lemma take2_split_js:
  assumes "sep \<notin> set b"
  shows "\<exists>rest. split_js sep (b @ sep # t) = b # takeWhile (\<lambda>c. c \<noteq> sep) t # rest"
  using split_js_first [of sep t] split_js_at_sep [OF assms, of t] by auto

section \<open>The \<open>tools/call\<close> handler\<close>

text \<open>
  What the handler does on a name that contains the separator, in terms of the text
  \<open>b\<close> before the first separator and the text \<open>t\<close> after it: the tool name it
  works with is \<open>t\<close> cut at its own first separator, because \<open>split(':', 2)\<close> keeps
  the first two pieces of the full split.
\<close>

lemma call_tool_handler_sep:
  assumes "CHR '':'' \<notin> set b"
  shows "call_tool_handler mcpServers now (b @ CHR '':'' # t) toolArgs =
     (let a = takeWhile (\<lambda>c. c \<noteq> CHR '':'') t in
      if b = [] \<or> a = [] then ([], Inl (MalformedToolName (b @ CHR '':'' # t)))
      else (case map_of mcpServers b of
              None \<Rightarrow> ([], Inl (UnknownBackend b))
            | Some mcpServer \<Rightarrow>
                ([(b, call_request (stype mcpServer) now a toolArgs)],
                 case request mcpServer (call_request (stype mcpServer) now a toolArgs) of
                   Inl e \<Rightarrow> Inl e
                 | Inr response \<Rightarrow> normalize_response response)))"
proof -
  obtain rest where
    "split_js CHR '':'' (b @ CHR '':'' # t) = b # takeWhile (\<lambda>c. c \<noteq> CHR '':'') t # rest"
    using take2_split_js [OF assms] by blast
  then show ?thesis
    by (simp add: call_tool_handler_def Let_def split: option.split)
qed

lemma call_tool_handler_no_sep:
  assumes "CHR '':'' \<notin> set n"
  shows "call_tool_handler mcpServers now n toolArgs = ([], Inl (MalformedToolName n))"
  by (simp add: call_tool_handler_def split_js_no_sep [OF assms])

text \<open>
  C6. A tool name without the separator, or with nothing before its first separator,
  or with nothing after it, is rejected with the malformed-name error, and the handler
  has called no backend session.
\<close>

theorem malformed_name_rejected:
  assumes "CHR '':'' \<notin> set n \<or> (\<exists>t. n = CHR '':'' # t) \<or> (\<exists>b. CHR '':'' \<notin> set b \<and> n = b @ '':'')"
  shows "call_tool_handler mcpServers now n toolArgs = ([], Inl (MalformedToolName n))"
proof -
  consider (none) "CHR '':'' \<notin> set n"
    | (no_backend) t where "n = CHR '':'' # t"
    | (no_tool) b where "CHR '':'' \<notin> set b" "n = b @ '':''"
    using assms by blast
  then show ?thesis
  proof cases
    case none
    then show ?thesis by (rule call_tool_handler_no_sep)
  next
    case no_backend
    have "call_tool_handler mcpServers now ([] @ CHR '':'' # t) toolArgs =
            ([], Inl (MalformedToolName ([] @ CHR '':'' # t)))"
      by (subst call_tool_handler_sep) simp_all
    with no_backend show ?thesis by simp
  next
    case no_tool
    have "call_tool_handler mcpServers now (b @ CHR '':'' # []) toolArgs =
            ([], Inl (MalformedToolName (b @ CHR '':'' # [])))"
      by (subst call_tool_handler_sep) (simp_all add: no_tool(1))
    with no_tool show ?thesis by simp
  qed
qed

theorem malformed_name_rejected_witness:
  "call_tool_handler [(''a'', \<lparr>stype = STDIO, request = Inr \<circ> Some\<rparr>)] 0 ''run'' None
     = ([], Inl (MalformedToolName ''run''))
   \<and> call_tool_handler [(''a'', \<lparr>stype = STDIO, request = Inr \<circ> Some\<rparr>)] 0 '':run'' None
     = ([], Inl (MalformedToolName '':run''))
   \<and> call_tool_handler [(''a'', \<lparr>stype = STDIO, request = Inr \<circ> Some\<rparr>)] 0 ''a:'' None
     = ([], Inl (MalformedToolName ''a:''))"
proof -
  have 1: "CHR '':'' \<notin> set ''run'' \<or> (\<exists>t. ''run'' = CHR '':'' # t)
             \<or> (\<exists>b. CHR '':'' \<notin> set b \<and> ''run'' = b @ '':'')"
    by simp
  have 2: "CHR '':'' \<notin> set '':run'' \<or> (\<exists>t. '':run'' = CHR '':'' # t)
             \<or> (\<exists>b. CHR '':'' \<notin> set b \<and> '':run'' = b @ '':'')"
    by simp
  have "CHR '':'' \<notin> set ''a'' \<and> ''a:'' = ''a'' @ '':''"
    by simp
  then have 3: "CHR '':'' \<notin> set ''a:'' \<or> (\<exists>t. ''a:'' = CHR '':'' # t)
             \<or> (\<exists>b. CHR '':'' \<notin> set b \<and> ''a:'' = b @ '':'')"
    by blast
  show ?thesis
    using malformed_name_rejected [OF 1] malformed_name_rejected [OF 2]
      malformed_name_rejected [OF 3]
    by blast
qed

text \<open>
  C5. On the name \<open>b:t1:t2\<close> the handler finds the backend \<open>b\<close> but forwards the
  tool name \<open>t1\<close>: \<open>split(':', 2)\<close> drops everything after the second separator,
  so the remainder \<open>t1:t2\<close> does not reach the backend.
\<close>

theorem separator_in_tool_segment_is_cut:
  "call_tool_handler [(''b'', \<lparr>stype = STDIO, request = Inr \<circ> Some\<rparr>)] 0 ''b:t1:t2'' None
     = ([(''b'', JObj [(''method'', JStr ''tools/call''),
                       (''params'', JObj [(''name'', JStr ''t1'')])])],
        Inr (JObj [(''content'', JObj [(''method'', JStr ''tools/call''),
                                       (''params'', JObj [(''name'', JStr ''t1'')])])]))"
  by (simp add: call_tool_handler_def call_request_def Let_def)

text \<open>
  Whatever the name and the registry, the handler calls at most one session, and only
  the one registered under the text before the first separator of the name.
\<close>

lemma only_named_backend_is_called:
  "fst (call_tool_handler mcpServers now n toolArgs) = []
   \<or> (\<exists>mcpServer a.
         map_of mcpServers (takeWhile (\<lambda>c. c \<noteq> CHR '':'') n) = Some mcpServer
         \<and> fst (call_tool_handler mcpServers now n toolArgs)
             = [(takeWhile (\<lambda>c. c \<noteq> CHR '':'') n,
                 call_request (stype mcpServer) now a toolArgs)])"
proof (cases "CHR '':'' \<in> set n")
  case False
  then show ?thesis by (simp add: call_tool_handler_no_sep)
next
  case True
  let ?b = "takeWhile (\<lambda>c. c \<noteq> CHR '':'') n"
  let ?r = "dropWhile (\<lambda>c. c \<noteq> CHR '':'') n"
  from True have "?r \<noteq> []" by simp
  moreover have "?r \<noteq> [] \<Longrightarrow> hd ?r = CHR '':''"
    using hd_dropWhile [of "\<lambda>c. c \<noteq> CHR '':''" n] by simp
  ultimately obtain t where r: "?r = CHR '':'' # t" by (cases ?r) auto
  have n: "n = ?b @ CHR '':'' # t"
    using takeWhile_dropWhile_id [of "\<lambda>c. c \<noteq> CHR '':''" n] r by simp
  have b: "CHR '':'' \<notin> set ?b"
    by (auto dest: set_takeWhileD)
  have "fst (call_tool_handler mcpServers now (?b @ CHR '':'' # t) toolArgs) = []
        \<or> (\<exists>mcpServer a. map_of mcpServers ?b = Some mcpServer
              \<and> fst (call_tool_handler mcpServers now (?b @ CHR '':'' # t) toolArgs)
                  = [(?b, call_request (stype mcpServer) now a toolArgs)])"
    by (auto simp: call_tool_handler_sep [OF b] Let_def split: option.splits)
  with n show ?thesis by simp
qed

text \<open>
  Where the tool name has no separator the handler does what the router is described
  to do: the call goes, under that tool name, to the session registered under the
  backend name, and a backend that is not registered, or no longer since its
  subprocess exited, gives the unknown-backend error without any call.
\<close>

lemma takeWhile_no_sep: "sep \<notin> set t \<Longrightarrow> takeWhile (\<lambda>c. c \<noteq> sep) t = t"
  by (induction t) auto

lemma plain_tool_name_is_forwarded:
  assumes "map_of mcpServers b = Some s"
    and "b \<noteq> []" and "CHR '':'' \<notin> set b"
    and "t \<noteq> []" and "CHR '':'' \<notin> set t"
  shows "call_tool_handler mcpServers now (b @ CHR '':'' # t) toolArgs =
     ([(b, call_request (stype s) now t toolArgs)],
      case request s (call_request (stype s) now t toolArgs) of
        Inl e \<Rightarrow> Inl e
      | Inr response \<Rightarrow> normalize_response response)"
  using assms(1,2,4)
  by (simp add: call_tool_handler_sep [OF assms(3)] Let_def takeWhile_no_sep [OF assms(5)])

lemma unknown_backend_plain_tool:
  assumes "b \<noteq> []" and "CHR '':'' \<notin> set b"
    and "t \<noteq> []" and "CHR '':'' \<notin> set t"
  shows "map_of mcpServers b = None \<Longrightarrow>
           call_tool_handler mcpServers now (b @ CHR '':'' # t) toolArgs
             = ([], Inl (UnknownBackend b))"
    and "call_tool_handler (on_exit b mcpServers) now (b @ CHR '':'' # t) toolArgs
             = ([], Inl (UnknownBackend b))"
proof -
  have gone: "map_of (on_exit b mcpServers) b = None"
    by (simp add: on_exit_def delete_conv')
  have unknown: "call_tool_handler regs now (b @ CHR '':'' # t) toolArgs
                   = ([], Inl (UnknownBackend b))"
    if "map_of regs b = None" for regs
    using that assms(1,3)
    by (simp add: call_tool_handler_sep [OF assms(2)] Let_def takeWhile_no_sep [OF assms(4)])
  show "map_of mcpServers b = None \<Longrightarrow>
           call_tool_handler mcpServers now (b @ CHR '':'' # t) toolArgs
             = ([], Inl (UnknownBackend b))"
    by (rule unknown)
  show "call_tool_handler (on_exit b mcpServers) now (b @ CHR '':'' # t) toolArgs
             = ([], Inl (UnknownBackend b))"
    by (rule unknown [OF gone])
qed

text \<open>
  C1. Backends \<open>a\<close> and \<open>b\<close> are registered and the tool \<open>:run\<close> of backend \<open>a\<close>
  is called under its name \<open>a::run\<close>. The call is to be forwarded to the session
  registered under \<open>a\<close>. The handler forwards it to no session: \<open>split(':', 2)\<close>
  gives the pieces \<open>a\<close> and the empty text, and the guard rejects the name as
  malformed. The cut of the name is the one of C5.
\<close>

theorem tool_with_leading_separator_is_not_forwarded:
  "call_tool_handler
     [(''a'', \<lparr>stype = STDIO, request = Inr \<circ> Some\<rparr>),
      (''b'', \<lparr>stype = SSE, request = Inr \<circ> Some\<rparr>)] 0 ''a::run'' None
   = ([], Inl (MalformedToolName ''a::run''))"
  by (simp add: call_tool_handler_def)

text \<open>
  C7. No backend \<open>zz\<close> is registered and the tool \<open>:run\<close> is called under the name
  \<open>zz::run\<close>, whose backend segment \<open>zz\<close> and tool segment \<open>:run\<close> are not empty.
  The call is to fail with the unknown-backend error. The handler fails with the
  malformed-name error: \<open>split(':', 2)\<close> gives the pieces \<open>zz\<close> and the empty text,
  and the guard fires before the registry is read. The cut of the name is the one of
  C5.
\<close>

theorem unknown_backend_with_leading_separator_is_malformed:
  "call_tool_handler [(''a'', \<lparr>stype = STDIO, request = Inr \<circ> Some\<rparr>)] 0 ''zz::run'' None
     = ([], Inl (MalformedToolName ''zz::run''))
   \<and> MalformedToolName ''zz::run'' \<noteq> UnknownBackend ''zz''"
  by (simp add: call_tool_handler_def MalformedToolName_def UnknownBackend_def)

section \<open>The catalogue returned by \<open>tools/list\<close>\<close>















section \<open>Reading the example fragments\<close>

lemma read_json_numeral: "read_json (numeral k) what s = read_json (Suc (pred_numeral k)) what s"
  by (simp only: numeral_eq_Suc)

lemmas json_parse_eval =
  json_parse_def read_json_numeral is_json_ws_def skip_ws_def is_digit_def read_number_def
  read_atom_def read_key_def digits_value_def unescape_def Let_def

section \<open>Reading a streamed body\<close>

lemma split_js_pieces: "p \<in> set (split_js sep s) \<Longrightarrow> sep \<notin> set p"
  by (induction s arbitrary: p) (auto split: if_splits list.splits)

lemma last_split_js_no_sep: "sep \<notin> set (last (split_js sep s))"
  using split_js_pieces [of "last (split_js sep s)" sep s] split_js_not_Nil [of sep s]
  by simp

lemma split_js_append:
  "split_js sep (a @ b) = butlast (split_js sep a) @ split_js sep (last (split_js sep a) @ b)"
proof (induction a)
  case Nil
  then show ?case by simp
next
  case (Cons x a)
  obtain p ps where a: "split_js sep a = p # ps"
    using split_js_not_Nil [of sep a] by (cases "split_js sep a") auto
  obtain q qs where q: "split_js sep (last (p # ps) @ b) = q # qs"
    using split_js_not_Nil [of sep "last (p # ps) @ b"]
    by (cases "split_js sep (last (p # ps) @ b)") auto
  show ?case
  proof (cases "x = sep")
    case True
    then show ?thesis using Cons.IH a by simp
  next
    case False
    then show ?thesis using Cons.IH a q by (cases ps) auto
  qed
qed

lemma scan_lines_append:
  "scan_lines parse mid (xs @ ys) =
     (case scan_lines parse mid xs of Some d \<Rightarrow> Some d | None \<Rightarrow> scan_lines parse mid ys)"
  by (induction xs) (auto split: option.splits)

lemma scan_lines_None:
  "scan_lines parse mid ls = None \<longleftrightarrow> (\<forall>l \<in> set ls. matching_fragment parse mid l = None)"
  by (induction ls) (auto split: option.splits)

text \<open>
  Reading chunk by chunk finds what one pass over the lines of the whole body finds:
  the first complete line that matches, or else the text after the last line break.
\<close>

lemma read_stream_eq:
  assumes "CHR 0x0A \<notin> set buffer"
  shows "read_stream parse mid buffer cs =
     (case scan_lines parse mid (butlast (split_js CHR 0x0A (buffer @ concat cs))) of
        Some d \<Rightarrow> Inl d
      | None \<Rightarrow> Inr (last (split_js CHR 0x0A (buffer @ concat cs))))"
  using assms
proof (induction cs arbitrary: buffer)
  case Nil
  then show ?case by (simp add: split_js_no_sep)
next
  case (Cons v rest)
  let ?L = "split_js CHR 0x0A (buffer @ v)"
  let ?R = "split_js CHR 0x0A (last ?L @ concat rest)"
  have whole: "split_js CHR 0x0A (buffer @ concat (v # rest)) = butlast ?L @ ?R"
    using split_js_append [of "CHR 0x0A" "buffer @ v" "concat rest"] by simp
  have R: "?R \<noteq> []" by (rule split_js_not_Nil)
  have IH: "read_stream parse mid (last ?L) rest =
     (case scan_lines parse mid (butlast ?R) of Some d \<Rightarrow> Inl d | None \<Rightarrow> Inr (last ?R))"
    by (rule Cons.IH) (rule last_split_js_no_sep)
  show ?case
    by (simp only: read_stream.simps Let_def whole butlast_append last_append R if_False
        scan_lines_append IH split: option.split) (simp split: option.split)
qed

lemma sendHTTP_streaming:
  assumes "ok resp" and "\<not> declares resp ''application/json''" and "\<not> declares resp ''text/''"
  shows "sendHTTP parse mid (Inr resp) =
     (case scan_lines parse mid (butlast (split_js CHR 0x0A (concat (chunks resp)))) of
        Some data \<Rightarrow> Inr (Some data)
      | None \<Rightarrow>
          (case broken resp of
             Some e \<Rightarrow> Inl e
           | None \<Rightarrow>
               if trim (last (split_js CHR 0x0A (concat (chunks resp)))) \<noteq> [] then
                 (case parse (last (split_js CHR 0x0A (concat (chunks resp)))) of
                    None \<Rightarrow> Inr (Some (JObj [(''result'',
                               JStr (last (split_js CHR 0x0A (concat (chunks resp)))))]))
                  | Some v \<Rightarrow> Inr (Some v))
               else Inr None))"
  using assms read_stream_eq [of "[]" parse mid "chunks resp"]
  by (simp add: sendHTTP_def split: option.split)

lemma fragment_lines:
  \<open>split_js CHR 0x0A fragment_stream =
     [''{"id":"x","partial":true}'', ''{"id":"x","result":42}'', []]\<close>
  by (simp add: fragment_stream_def)

lemma partial_fragment_matches:
  \<open>matching_fragment json_parse (IdStr ''x'') ''{"id":"x","partial":true}''
     = Some (JObj [(''id'', JStr ''x''), (''partial'', JBool True)])\<close>
  by (simp add: matching_fragment_def trim_def is_space_def json_parse_eval del: Suc_numeral)

text \<open>
  C3 as stated fails: on the fragment stream of the scenario, delivered in one chunk,
  the call with id \<open>x\<close> resolves with the partial fragment.
\<close>

theorem first_matching_fragment_wins_counterexample:
  "sendHTTP json_parse (IdStr ''x'') (Inr (streamed [fragment_stream]))
     = Inr (Some (JObj [(''id'', JStr ''x''), (''partial'', JBool True)]))"
proof -
  have a: "ok (streamed [fragment_stream])"
    "\<not> declares (streamed [fragment_stream]) ''application/json''"
    "\<not> declares (streamed [fragment_stream]) ''text/''"
    by (simp_all add: streamed_def declares_def)
  have c: "concat (chunks (streamed [fragment_stream])) = fragment_stream"
    by (simp add: streamed_def)
  show ?thesis
    by (simp add: sendHTTP_streaming [OF a] c fragment_lines partial_fragment_matches)
qed

text \<open>
  C3, amended. A streamed response whose body begins with the line of the partial
  fragment resolves the call with id \<open>x\<close> with that fragment, the first whose id
  matches, however the body is cut into chunks, whatever text follows that line (so
  the fragment with result 42 plays no part), and whether or not the body breaks off
  afterwards.
\<close>

theorem first_matching_fragment_wins:
  assumes "ok resp" and "\<not> declares resp ''application/json''" and "\<not> declares resp ''text/''"
    and \<open>concat (chunks resp) = ''{"id":"x","partial":true}'' @ CHR 0x0A # rest\<close>
  shows "sendHTTP json_parse (IdStr ''x'') (Inr resp)
           = Inr (Some (JObj [(''id'', JStr ''x''), (''partial'', JBool True)]))"
proof -
  have lines: \<open>split_js CHR 0x0A (''{"id":"x","partial":true}'' @ CHR 0x0A # rest)
                 = ''{"id":"x","partial":true}'' # split_js CHR 0x0A rest\<close>
    by (rule split_js_at_sep) simp
  have more: "split_js CHR 0x0A rest \<noteq> []"
    by (rule split_js_not_Nil)
  have "scan_lines json_parse (IdStr ''x'')
          (butlast (split_js CHR 0x0A (concat (chunks resp))))
        = Some (JObj [(''id'', JStr ''x''), (''partial'', JBool True)])"
    unfolding assms(4) lines using more by (simp add: partial_fragment_matches)
  then show ?thesis
    by (simp add: sendHTTP_streaming [OF assms(1-3)])
qed

theorem first_matching_fragment_wins_witness:
  "sendHTTP json_parse (IdStr ''x'')
     (Inr (streamed [take 30 fragment_stream, drop 30 fragment_stream]))
     = Inr (Some (JObj [(''id'', JStr ''x''), (''partial'', JBool True)]))"
proof -
  let ?resp = "streamed [take 30 fragment_stream, drop 30 fragment_stream]"
  have h: "ok ?resp" "\<not> declares ?resp ''application/json''" "\<not> declares ?resp ''text/''"
    by (simp_all add: streamed_def declares_def)
  have body: \<open>concat (chunks ?resp)
                = ''{"id":"x","partial":true}'' @ CHR 0x0A # ''{"id":"x","result":42}\<newline>''\<close>
    by (simp add: streamed_def fragment_stream_def)
  show ?thesis
    by (rule first_matching_fragment_wins [OF h body])
qed

text \<open>
  C10. A streamed response (accepted, with a content type that declares neither JSON
  nor text, and a body that ends normally) in which no complete line is a fragment
  with the id of the request, and whose text after the last line break is empty or
  blank, resolves the call with \<open>undefined\<close>: the caller gets neither a value nor
  an error.
\<close>

theorem stream_without_match_resolves_undefined:
  assumes "ok resp" and "\<not> declares resp ''application/json''" and "\<not> declares resp ''text/''"
    and "broken resp = None"
    and "\<forall>line \<in> set (butlast (split_js CHR 0x0A (concat (chunks resp)))).
           matching_fragment parse mid line = None"
    and "trim (last (split_js CHR 0x0A (concat (chunks resp)))) = []"
  shows "sendHTTP parse mid (Inr resp) = Inr None"
proof -
  have "scan_lines parse mid (butlast (split_js CHR 0x0A (concat (chunks resp)))) = None"
    using assms(5) by (simp add: scan_lines_None)
  then show ?thesis
    by (simp add: sendHTTP_streaming [OF assms(1-3)] assms(4,6))
qed

theorem stream_without_match_resolves_undefined_witness:
  "sendHTTP json_parse (IdStr ''other'') (Inr (streamed [fragment_stream])) = Inr None"
proof -
  have no_match:
    "\<forall>line \<in> set (butlast (split_js CHR 0x0A (concat (chunks (streamed [fragment_stream]))))).
       matching_fragment json_parse (IdStr ''other'') line = None"
    by (simp add: streamed_def fragment_lines matching_fragment_def trim_def is_space_def
        json_parse_eval del: Suc_numeral)
  have blank: "trim (last (split_js CHR 0x0A (concat (chunks (streamed [fragment_stream]))))) = []"
    by (simp add: streamed_def fragment_lines trim_def)
  show ?thesis
    using stream_without_match_resolves_undefined [OF _ _ _ _ no_match blank]
    by (simp add: streamed_def declares_def)
qed

section \<open>Pending requests of the event-stream transport\<close>

lemma map_of_filter_fst:
  "map_of (filter (\<lambda>e. fst e \<noteq> q) xs) p = (if p = q then None else map_of xs p)"
  by (induction xs) auto

lemma set_delete_subset: "set (AList.delete k xs) \<subseteq> set xs"
  by (induction xs) auto

lemma set_update_subset: "set (AList.update k v xs) \<subseteq> insert (k, v) (set xs)"
  by (induction xs) auto

lemma promises_known_sendSSE: "promises_known t \<Longrightarrow> promises_known (snd (sendSSE mid posted t))"
  using set_update_subset [of mid "promises t" "pendingRequests t"]
  by (auto simp: promises_known_def sendSSE_def less_Suc_eq split: sum.splits)

lemma promises_known_handleMessage:
  "promises_known t \<Longrightarrow> handleMessage data t = Inr t' \<Longrightarrow> promises_known t'"
  using set_delete_subset [of _ "pendingRequests t"]
  by (fastforce simp: promises_known_def handleMessage_def pending_entry_def
      split: sum.splits option.splits if_splits dest: map_of_SomeD)

lemma promises_known_onmessage: "promises_known t \<Longrightarrow> promises_known (onmessage parse text t)"
  by (auto simp: onmessage_def split: option.splits sum.splits
      dest: promises_known_handleMessage)

lemma promises_known_timeout_fires: "promises_known t \<Longrightarrow> promises_known (timeout_fires p t)"
  using set_delete_subset [of _ "pendingRequests t"]
  by (fastforce simp: promises_known_def timeout_fires_def split: option.splits
      dest: map_of_SomeD)

lemma promises_known_disconnect: "promises_known t \<Longrightarrow> promises_known (disconnect t)"
  by (auto simp: promises_known_def disconnect_def)

lemma promises_known_connect: "promises_known t \<Longrightarrow> promises_known (connect cfg imported probe t)"
  by (auto simp: promises_known_def connect_def connectSSE_def split: sum.splits option.splits)

lemma promises_known_assign_id: "promises_known t \<Longrightarrow> promises_known (snd (assign_id mid t))"
  by (auto simp: promises_known_def assign_id_def split: option.splits)

lemma promises_known_send:
  assumes "promises_known t"
  shows "promises_known (snd (send parse cfg mid fetched t))"
proof -
  obtain i t' where a: "assign_id mid t = (i, t')" by (cases "assign_id mid t")
  have t': "promises_known t'"
    using promises_known_assign_id [OF assms, of mid] a by simp
  have "promises_known (snd (sendSSE i fetched t'))"
    by (rule promises_known_sendSSE [OF t'])
  then show ?thesis
    using assms t' a by (auto simp: send_def split: prod.splits sum.splits)
qed

text \<open>Every state the transport reaches keeps its promises known.\<close>

lemma reachable_promises_known: "reachable t \<Longrightarrow> promises_known t"
proof (induction rule: reachable.induct)
  case created
  show ?case by (simp add: promises_known_def new_transport_def)
qed (simp_all add: promises_known_connect promises_known_send promises_known_onmessage
      promises_known_timeout_fires promises_known_disconnect)

section \<open>A reply that overtakes the registration\<close>

text \<open>
  C4. An execution of the code in which the reply arrives before the registration. The
  transport is connected to an event-stream backend; \<open>sendSSE\<close> has issued its POST
  for the request with id \<open>x\<close> and waits for the HTTP response; the backend's reply
  arrives on the event stream. No entry exists yet, so the reply is emitted as a
  \<open>message\<close> event and settles nothing. Then the POST completes and the request is
  registered; nothing will answer it, and its timer rejects it.
\<close>

theorem reply_before_registration_is_lost:
  \<open>let t0 = connect \<lparr>config_name = ''b'', config_type = SSE, config_url = ''http://b/sse''\<rparr>
                None (Inr (streamed [])) new_transport;
       t1 = onmessage json_parse ''{"id":"x","result":42}'' t0;
       t2 = snd (sendSSE (IdStr ''x'') (Inr (streamed [])) t1);
       t3 = timeout_fires 0 t2
   in pendingRequests t0 = []
      \<and> emitted t1 = [Connect, Message (JObj [(''id'', JStr ''x''), (''result'', JNum 42)])]
      \<and> settled t1 = []
      \<and> pendingRequests t2 = [(IdStr ''x'', 0)]
      \<and> settled t2 = []
      \<and> settled t3 = [(0, Rejected (Error ''SSE request timeout''))]\<close>
proof -
  have p: \<open>json_parse ''{"id":"x","result":42}'' = Some (JObj [(''id'', JStr ''x''), (''result'', JNum 42)])\<close>
    by (simp add: json_parse_eval del: Suc_numeral)
  show ?thesis
    by (simp add: Let_def connect_def connectSSE_def new_transport_def onmessage_def p
        handleMessage_def pending_entry_def sendSSE_def streamed_def timeout_fires_def)
qed

section \<open>The connectivity probe\<close>

text \<open>
  C9. For a streamed-HTTP backend the outcome of the probe has no influence on the
  state \<open>connect\<close> leaves behind: the transport is connected after every outcome, and
  a following \<open>send\<close> passes the connection check, assigns the id and returns what
  \<open>sendHTTP\<close> returns.
\<close>

theorem failed_probe_leaves_transport_usable:
  assumes "config_type cfg = STREAMABLE_HTTP"
  shows "connected (connect cfg imported probe t)
       \<and> connect cfg imported probe t = connect cfg imported probe' t
       \<and> send parse cfg mid fetched (connect cfg imported probe t) =
           (case assign_id mid (connect cfg imported probe t) of
              (i, t') \<Rightarrow>
                (case sendHTTP parse i fetched of
                   Inl e \<Rightarrow> (Inl e, t')
                 | Inr v \<Rightarrow> (Inr (Value v), t')))"
proof -
  have c: "connected (connect cfg imported probe t)"
    using assms by (simp add: connect_def split: sum.splits)
  have same: "connect cfg imported probe t = connect cfg imported probe' t"
    using assms by (simp add: connect_def split: sum.splits)
  show ?thesis
    using c same assms by (simp add: send_def split: prod.splits)
qed

theorem failed_probe_leaves_transport_usable_witness:
  "connected (connect \<lparr>config_name = ''h'', config_type = STREAMABLE_HTTP, config_url = ''http://h/mcp''\<rparr>
                None (Inl (AbortError ''The operation was aborted'')) new_transport)
   \<and> fst (send json_parse
            \<lparr>config_name = ''h'', config_type = STREAMABLE_HTTP, config_url = ''http://h/mcp''\<rparr>
            (Some (IdStr ''x'')) (Inr (streamed [fragment_stream]))
            (connect \<lparr>config_name = ''h'', config_type = STREAMABLE_HTTP, config_url = ''http://h/mcp''\<rparr>
                None (Inl (AbortError ''The operation was aborted'')) new_transport))
      = Inr (Value (Some (JObj [(''id'', JStr ''x''), (''partial'', JBool True)])))"
proof -
  let ?cfg = "\<lparr>config_name = ''h'', config_type = STREAMABLE_HTTP, config_url = ''http://h/mcp''\<rparr>"
  have a: "ok (streamed [fragment_stream])"
    "\<not> declares (streamed [fragment_stream]) ''application/json''"
    "\<not> declares (streamed [fragment_stream]) ''text/''"
    by (simp_all add: streamed_def declares_def)
  have c: "concat (chunks (streamed [fragment_stream])) = fragment_stream"
    by (simp add: streamed_def)
  have r: "sendHTTP json_parse (IdStr ''x'') (Inr (streamed [fragment_stream]))
             = Inr (Some (JObj [(''id'', JStr ''x''), (''partial'', JBool True)]))"
    by (simp add: sendHTTP_streaming [OF a] c fragment_lines partial_fragment_matches)
  have h: "config_type ?cfg = STREAMABLE_HTTP" by simp
  show ?thesis
    using failed_probe_leaves_transport_usable [OF h, of None
        "Inl (AbortError ''The operation was aborted'')" new_transport
        "Inl (AbortError ''The operation was aborted'')" json_parse "Some (IdStr ''x'')"
        "Inr (streamed [fragment_stream])"]
    by (simp add: assign_id_def r)
qed

section \<open>A request that times out\<close>

lemma armed_after_sendSSE:
  assumes "promises_known t" and "ok resp"
  shows "fst (sendSSE x (Inr resp) t) = Inr (promises t)"
    and "armed x (promises t) (snd (sendSSE x (Inr resp) t))"
proof -
  show "fst (sendSSE x (Inr resp) t) = Inr (promises t)"
    using assms(2) by (simp add: sendSSE_def)
  have timers: "map_of (timers t) (promises t) = None"
  proof (cases "map_of (timers t) (promises t)")
    case None
    then show ?thesis .
  next
    case (Some i)
    then have "(promises t, i) \<in> set (timers t)" by (rule map_of_SomeD)
    with assms(1) show ?thesis by (auto simp: promises_known_def)
  qed
  have others: "fst e = x"
    if "e \<in> set (AList.update x (promises t) (pendingRequests t))" "snd e = promises t" for e
  proof -
    from that(1) have "e = (x, promises t) \<or> e \<in> set (pendingRequests t)"
      using set_update_subset [of x "promises t" "pendingRequests t"] by auto
    with assms(1) that(2) show ?thesis by (auto simp: promises_known_def)
  qed
  have unsettled: "fst e \<noteq> promises t" if "e \<in> set (settled t)" for e
    using assms(1) that by (auto simp: promises_known_def)
  show "armed x (promises t) (snd (sendSSE x (Inr resp) t))"
    using assms(2) timers others unsettled
    by (simp add: armed_def sendSSE_def map_add_def)
qed

lemma armed_handleMessage:
  assumes "armed x p t" and "handleMessage data t = Inr t'"
    and "get_prop ''id'' (Some data) \<noteq> Inr (Some (id_json x))"
  shows "armed x p t'"
proof -
  obtain i where i: "get_prop ''id'' (Some data) = Inr i"
    using assms(2) by (auto simp: handleMessage_def split: sum.splits)
  show ?thesis
  proof (cases "pending_entry i t")
    case None
    with assms(1,2) i show ?thesis by (auto simp: handleMessage_def armed_def)
  next
    case (Some kq)
    obtain k q where kq: "kq = (k, q)" by (cases kq)
    from Some kq have k: "as_id i = Some k" and q: "map_of (pendingRequests t) k = Some q"
      by (auto simp: pending_entry_def split: if_splits option.splits)
    have "i = Some (id_json k)"
      using k by (cases i rule: as_id.cases) auto
    with assms(3) i have kx: "k \<noteq> x" by auto
    from q have "(k, q) \<in> set (pendingRequests t)" by (rule map_of_SomeD)
    with assms(1) kx have qp: "q \<noteq> p" by (auto simp: armed_def)
    have t': "t' = t\<lparr>timers := filter (\<lambda>e. fst e \<noteq> q) (timers t),
                     pendingRequests := AList.delete k (pendingRequests t),
                     settled := settled t @ [(q, Resolved data)]\<rparr>"
      using assms(2) i Some kq by (simp add: handleMessage_def)
    show ?thesis
      using assms(1) qp set_delete_subset [of k "pendingRequests t"]
      by (auto simp: t' armed_def map_of_filter_fst)
  qed
qed

lemma armed_sendSSE:
  assumes "armed x p t"
  shows "armed x p (snd (sendSSE mid posted t))"
proof (cases posted)
  case (Inl e)
  with assms show ?thesis by (simp add: sendSSE_def)
next
  case (Inr resp)
  show ?thesis
  proof (cases "ok resp")
    case False
    with assms Inr show ?thesis by (simp add: sendSSE_def)
  next
    case True
    have "fst e = x"
      if "e \<in> set (AList.update mid (promises t) (pendingRequests t))" "snd e = p" for e
    proof -
      from that(1) have "e = (mid, promises t) \<or> e \<in> set (pendingRequests t)"
        using set_update_subset [of mid "promises t" "pendingRequests t"] by auto
      with assms that(2) show ?thesis by (auto simp: armed_def)
    qed
    with assms Inr True show ?thesis
      by (simp add: armed_def sendSSE_def map_add_def)
  qed
qed

lemma armed_timeout_fires:
  assumes "armed x p t" and "q \<noteq> p"
  shows "armed x p (timeout_fires q t)"
  using assms set_delete_subset [of _ "pendingRequests t"]
  by (auto simp: armed_def timeout_fires_def map_of_filter_fst split: option.splits)

lemma armed_perform:
  assumes "armed x p t" and "quiet parse x p s"
  shows "armed x p (perform parse s t)"
proof (cases s)
  case (Hear line)
  with assms show ?thesis
    by (auto simp: onmessage_def split: option.splits sum.splits intro: armed_handleMessage)
next
  case (Post mid posted)
  with assms show ?thesis by (simp add: armed_sendSSE)
next
  case (Fire q)
  with assms show ?thesis by (simp add: armed_timeout_fires)
qed

lemma armed_run:
  assumes "armed x p t" and "\<forall>s \<in> set steps. quiet parse x p s"
  shows "armed x p (run parse steps t)"
  using assms
proof (induction steps arbitrary: t)
  case Nil
  then show ?case by simp
next
  case (Cons s ss)
  have "armed x p (perform parse s t)"
    using Cons.prems by (intro armed_perform) auto
  then show ?case
    using Cons.prems(2) by (simp add: Cons.IH)
qed

lemma timeout_fires_armed:
  assumes "armed x p t"
  shows "filter (\<lambda>e. fst e = p) (settled (timeout_fires p t))
           = [(p, Rejected (Error ''SSE request timeout''))]"
    and "map_of (pendingRequests (timeout_fires p t)) x = None"
proof -
  have eq: "timeout_fires p t =
           t\<lparr>timers := filter (\<lambda>e. fst e \<noteq> p) (timers t),
             pendingRequests := AList.delete x (pendingRequests t),
             settled := settled t @ [(p, Rejected (Error ''SSE request timeout''))]\<rparr>"
    using assms by (simp add: timeout_fires_def armed_def)
  have "filter (\<lambda>e. fst e = p) (settled t) = []"
    using assms by (auto simp: armed_def filter_empty_conv)
  then show "filter (\<lambda>e. fst e = p) (settled (timeout_fires p t))
           = [(p, Rejected (Error ''SSE request timeout''))]"
    by (simp add: eq)
  show "map_of (pendingRequests (timeout_fires p t)) x = None"
    by (simp add: eq delete_conv')
qed

lemma handleMessage_unmatched:
  assumes "get_prop ''id'' (Some data) = Inr (Some (id_json x))"
    and "map_of (pendingRequests t) x = None"
  shows "handleMessage data t = Inr (t\<lparr>emitted := emitted t @ [Message data]\<rparr>)"
proof -
  have "as_id (Some (id_json x)) = Some x" by (cases x) simp_all
  then have "pending_entry (Some (id_json x)) t = None"
    using assms(2) by (simp add: pending_entry_def)
  then show ?thesis
    using assms(1) by (simp add: handleMessage_def)
qed

text \<open>
  C8. Let request \<open>x\<close> be registered by \<open>sendSSE\<close> on promise \<open>p\<close>, and let nothing
  that happens before its deadline bring a message with id \<open>x\<close> (texts of other
  messages may arrive, other requests may be sent, other timers may fire). When the
  timer of \<open>p\<close> fires, the promise has been settled exactly once, rejected with the
  timeout error, and no entry is left under \<open>x\<close>. A response with id \<open>x\<close> that
  arrives after that finds no entry: \<open>handleMessage\<close> returns normally, emits the
  response as a \<open>message\<close> event and changes nothing else, so the promise is not
  settled again.
\<close>

theorem timed_out_request_settles_once:
  assumes "promises_known t" and "ok resp"
    and "\<forall>s \<in> set steps. quiet parse x (promises t) s"
    and "get_prop ''id'' (Some late) = Inr (Some (id_json x))"
  shows "let p = promises t;
             t1 = snd (sendSSE x (Inr resp) t);
             t2 = run parse steps t1;
             t3 = timeout_fires p t2
         in fst (sendSSE x (Inr resp) t) = Inr p
            \<and> filter (\<lambda>e. fst e = p) (settled t3) = [(p, Rejected (Error ''SSE request timeout''))]
            \<and> map_of (pendingRequests t3) x = None
            \<and> handleMessage late t3 = Inr (t3\<lparr>emitted := emitted t3 @ [Message late]\<rparr>)"
proof -
  let ?p = "promises t"
  let ?t1 = "snd (sendSSE x (Inr resp) t)"
  let ?t2 = "run parse steps ?t1"
  let ?t3 = "timeout_fires ?p ?t2"
  have registered: "fst (sendSSE x (Inr resp) t) = Inr ?p"
    by (rule armed_after_sendSSE(1) [OF assms(1,2)])
  have "armed x ?p ?t1"
    by (rule armed_after_sendSSE(2) [OF assms(1,2)])
  then have a: "armed x ?p ?t2"
    using assms(3) by (rule armed_run)
  have once: "filter (\<lambda>e. fst e = ?p) (settled ?t3) = [(?p, Rejected (Error ''SSE request timeout''))]"
    by (rule timeout_fires_armed(1) [OF a])
  have gone: "map_of (pendingRequests ?t3) x = None"
    by (rule timeout_fires_armed(2) [OF a])
  have unsolicited: "handleMessage late ?t3 = Inr (?t3\<lparr>emitted := emitted ?t3 @ [Message late]\<rparr>)"
    by (rule handleMessage_unmatched [OF assms(4) gone])
  show ?thesis
    unfolding Let_def using registered once gone unsolicited by blast
qed

theorem timed_out_request_settles_once_witness:
  \<open>let p = promises new_transport;
       t1 = snd (sendSSE (IdStr ''x'') (Inr (streamed [])) new_transport);
       t2 = run json_parse [Hear ''{"id":"y","result":1}'', Post (IdStr ''x'') (Inr (streamed [])),
                            Hear ''pong'', Fire 7] t1;
       t3 = timeout_fires p t2
   in fst (sendSSE (IdStr ''x'') (Inr (streamed [])) new_transport) = Inr p
      \<and> filter (\<lambda>e. fst e = p) (settled t3) = [(p, Rejected (Error ''SSE request timeout''))]
      \<and> map_of (pendingRequests t3) (IdStr ''x'') = None
      \<and> handleMessage (JObj [(''id'', JStr ''x''), (''result'', JNum 42)]) t3
          = Inr (t3\<lparr>emitted := emitted t3 @
                        [Message (JObj [(''id'', JStr ''x''), (''result'', JNum 42)])]\<rparr>)\<close>
proof -
  have h1: "promises_known new_transport"
    by (simp add: promises_known_def new_transport_def)
  have h2: "ok (streamed [])"
    by (simp add: streamed_def)
  have p1: \<open>json_parse ''{"id":"y","result":1}'' = Some (JObj [(''id'', JStr ''y''), (''result'', JNum 1)])\<close>
    by (simp add: json_parse_eval del: Suc_numeral)
  have p2: "json_parse ''pong'' = None"
    by (simp add: json_parse_eval del: Suc_numeral)
  have h3: \<open>\<forall>s \<in> set [Hear ''{"id":"y","result":1}'', Post (IdStr ''x'') (Inr (streamed [])),
                         Hear ''pong'', Fire 7].
             quiet json_parse (IdStr ''x'') (promises new_transport) s\<close>
    by (simp add: p1 p2 new_transport_def)
  have h4: "get_prop ''id'' (Some (JObj [(''id'', JStr ''x''), (''result'', JNum 42)]))
              = Inr (Some (id_json (IdStr ''x'')))"
    by simp
  show ?thesis
    by (rule timed_out_request_settles_once [OF h1 h2 h3 h4])
qed

end
